theory Spec2Isabelle
  imports Main "HOL-Library.Word"
begin

section \<open>The propagation steering code of Acts/Propagator/Propagator.hpp\<close>

text \<open>
  The header steers a stepping implementation \<open>Impl\<close> through a loop of steps, actions
  and abort conditions. The stepping implementation, the action list, the abort list and
  the standard abort conditions are template parameters or live in headers that the
  repository keeps elsewhere, so they are parameters of the model. The type variables are
  \<^item> \<open>'t\<close>: the initial track parameters,
  \<^item> \<open>'p\<close>: the final track parameters,
  \<^item> \<open>'r\<close>: the C++ type \<open>double\<close>. Only the operations the code applies to it are
    required of it (\<open>0\<close>, \<open>1\<close>, \<open>+\<close>, \<open>*\<close>, unary minus, \<open>abs\<close>) and no law of
    arithmetic is assumed, so every statement holds for rounding arithmetic too,
  \<^item> \<open>'k\<close>: the part of the stepper cache that the steering code never touches,
  \<^item> \<open>'s\<close>: the target surface,
  \<^item> \<open>'e\<close>: the additional propagation quantities (\<open>detail::Extendable\<close>).
\<close>

subsection \<open>Direction, Status and Result\<close>

datatype Direction = backward | forward

text \<open>\<open>enum Direction : int { backward = -1, forward = 1 }\<close>, converted to \<open>double\<close>.\<close>

fun direction_value :: "Direction \<Rightarrow> 'r::{one,uminus}" where
  "direction_value backward = - 1"
| "direction_value forward = 1"

datatype Status = SUCCESS | FAILURE | UNSET | IN_PROGRESS | WRONG_DIRECTION

text \<open>
  \<open>struct Result\<close>: the \<open>unique_ptr\<close> is an option (\<open>nullptr\<close> is \<open>None\<close>), the
  \<open>unsigned int\<close> a 32-bit word.
\<close>

record ('p, 'r, 'e) Result =
  endParameters :: "'p option"
  status :: Status
  steps :: "32 word"
  pathLength :: 'r
  extensions :: 'e

text \<open>
  The constructor \<open>Result(Status s = Status::UNSET)\<close> with the default member
  initialisers; \<open>e\<close> is the default-constructed \<open>Extendable\<close> base.
\<close>

definition Result_init :: "Status \<Rightarrow> 'e \<Rightarrow> ('p, 'r::zero, 'e) Result" where
  "Result_init s e =
     \<lparr>endParameters = None, status = s, steps = 0, pathLength = 0, extensions = e\<rparr>"

text \<open>\<open>operator bool\<close>: \<open>endParameters && status == Status::SUCCESS\<close>.\<close>

definition isValid :: "('p, 'r, 'e) Result \<Rightarrow> bool" where
  "isValid r = (endParameters r \<noteq> None \<and> status r = SUCCESS)"

subsection \<open>Cache, stepping implementation, options\<close>

text \<open>
  The cache type belongs to the stepping implementation; the steering code only assigns
  its member \<open>step_size\<close>.
\<close>

record ('r, 'k) cache_type =
  step_size :: 'r
  kinematics :: 'k

text \<open>
  What \<open>Impl\<close> provides: the two cache constructors \<open>cache_type(start)\<close> and
  \<open>cache_type(start, step_size)\<close>, \<open>step(cache)\<close>, which updates the cache and returns
  the path length of the step, and the two overloads of \<open>convert\<close>.
\<close>

record ('t, 'r, 'k, 's, 'p) Impl =
  cache_from :: "'t \<Rightarrow> ('r, 'k) cache_type"
  cache_from_sized :: "'t \<Rightarrow> 'r \<Rightarrow> ('r, 'k) cache_type"
  step :: "('r, 'k) cache_type \<Rightarrow> 'r \<times> ('r, 'k) cache_type"
  convert :: "('r, 'k) cache_type \<Rightarrow> 'p"
  convert_to :: "('r, 'k) cache_type \<Rightarrow> 's \<Rightarrow> 'p"

text \<open>
  \<open>struct Options\<close>. Modelled from the spec: \<open>ActionList.hpp\<close> and \<open>AbortList.hpp\<close> are
  not among the sources. An action list \<open>operate(cache, result)\<close> may change the cache and
  write the extension payloads of the result; an abort list is a pure predicate
  \<open>evaluate(result, cache)\<close>.
\<close>

record ('p, 'r, 'e, 'k) Options =
  direction :: Direction
  max_steps :: "32 word"
  target_tolerance :: 'r
  max_step_size :: 'r
  max_path_length :: 'r
  action_list :: "('r, 'k) cache_type \<Rightarrow> ('p, 'r, 'e) Result \<Rightarrow> ('r, 'k) cache_type \<times> 'e"
  stop_conditions :: "('p, 'r, 'e) Result \<Rightarrow> ('r, 'k) cache_type \<Rightarrow> bool"

subsection \<open>Internal abort conditions\<close>

text \<open>
  The two configured aborters of \<open>detail/standard_abort_conditions.hpp\<close>:
  \<open>path_limit_reached\<close> with its members \<open>signed_path_limit\<close> and \<open>tolerance\<close>,
  \<open>surface_reached\<close> with \<open>surface\<close>, \<open>direction\<close> and \<open>tolerance\<close>. The pointer to the
  target surface is modelled by the surface itself. An \<open>AbortList<...>\<close> of them is a
  list in the order of the template arguments.
\<close>

datatype ('r, 's) internal_aborter =
  path_limit_reached 'r 'r
| surface_reached 's Direction 'r

text \<open>
  Modelled from the spec: \<open>AbortList::operator()\<close> is not among the sources. The
  conditions of the list are OR'd in list order; \<open>cond\<close> is the call operator of the
  single conditions, which the missing header defines.
\<close>

definition AbortList_call ::
  "(('r, 's) internal_aborter \<Rightarrow> ('p, 'r, 'e) Result \<Rightarrow> ('r, 'k) cache_type \<Rightarrow> bool) \<Rightarrow>
   ('r, 's) internal_aborter list \<Rightarrow> ('p, 'r, 'e) Result \<Rightarrow> ('r, 'k) cache_type \<Rightarrow> bool" where
  "AbortList_call cond aborters r c = list_ex (\<lambda>a. cond a r c) aborters"

subsection \<open>The calls made to the collaborators\<close>

text \<open>
  Several properties of the steering code speak of which collaborator is called, how
  often and in which order. The model therefore keeps a log: every call that the code
  makes to the stepping implementation, the action list, the user's abort list or the
  internal abort list appends one entry, with the value returned or the argument passed.
\<close>

datatype ('r, 'k, 's) call =
  InternalCheck "('r, 's) internal_aborter list" bool
| Step 'r
| Actions
| UserCheck bool
| Convert "('r, 'k) cache_type"
| ConvertTo "('r, 'k) cache_type" 's

record ('p, 'r, 'e, 'k, 's) run =
  result :: "('p, 'r, 'e) Result"
  cache :: "('r, 'k) cache_type"
  calls :: "('r, 'k, 's) call list"

subsection \<open>The propagation loop\<close>

text \<open>
  One pass through the body of the \<open>for\<close> loop of \<open>propagate_\<close>. The first component
  tells whether the body left the loop by \<open>break\<close>; the \<open>++result.steps\<close> before the
  \<open>break\<close> is part of the body, the one of the loop header is not.
\<close>

definition loop_body ::
  "('t, 'r::plus, 'k, 's, 'p) Impl \<Rightarrow>
   (('r, 's) internal_aborter \<Rightarrow> ('p, 'r, 'e) Result \<Rightarrow> ('r, 'k) cache_type \<Rightarrow> bool) \<Rightarrow>
   ('p, 'r, 'e, 'k) Options \<Rightarrow> ('r, 's) internal_aborter list \<Rightarrow>
   ('p, 'r, 'e, 'k, 's) run \<Rightarrow> bool \<times> ('p, 'r, 'e, 'k, 's) run" where
  "loop_body impl cond options internal_stop_conditions st =
     (let (advance, c1) = step impl (cache st);
          r1 = (result st)\<lparr>pathLength := pathLength (result st) + advance\<rparr>;
          (c2, e2) = action_list options c1 r1;
          r2 = r1\<lparr>extensions := e2\<rparr>;
          log = calls st @ [Step advance, Actions]
      in if stop_conditions options r2 c2
         then (True, \<lparr>result = r2\<lparr>steps := steps r2 + 1\<rparr>, cache = c2,
                      calls = log @ [UserCheck True]\<rparr>)
         else if AbortList_call cond internal_stop_conditions r2 c2
         then (True, \<lparr>result = r2\<lparr>steps := steps r2 + 1\<rparr>, cache = c2,
                      calls = log @ [UserCheck False,
                                     InternalCheck internal_stop_conditions True]\<rparr>)
         else (False, \<lparr>result = r2, cache = c2,
                       calls = log @ [UserCheck False,
                                      InternalCheck internal_stop_conditions False]\<rparr>))"

text \<open>
  The loop \<open>for (; result.steps < options.max_steps; ++result.steps) { ... }\<close>.
\<close>

function propagation_loop ::
  "('t, 'r::plus, 'k, 's, 'p) Impl \<Rightarrow>
   (('r, 's) internal_aborter \<Rightarrow> ('p, 'r, 'e) Result \<Rightarrow> ('r, 'k) cache_type \<Rightarrow> bool) \<Rightarrow>
   ('p, 'r, 'e, 'k) Options \<Rightarrow> ('r, 's) internal_aborter list \<Rightarrow>
   ('p, 'r, 'e, 'k, 's) run \<Rightarrow> ('p, 'r, 'e, 'k, 's) run" where
  "propagation_loop impl cond options internal_stop_conditions st =
     (if steps (result st) < max_steps options
      then (case loop_body impl cond options internal_stop_conditions st of
              (True, st') \<Rightarrow> st'
            | (False, st') \<Rightarrow>
                propagation_loop impl cond options internal_stop_conditions
                  (st'\<lparr>result := (result st')\<lparr>steps := steps (result st') + 1\<rparr>\<rparr>))
      else st)"
  by pat_completeness auto
termination
proof (relation "measure (\<lambda>(impl, cond, options, internal, st).
                    unat (max_steps options) - unat (steps (result st)))", goal_cases)
  case 1
  show ?case by simp
next
  case (2 impl cond options internal st x st')
  from 2(2,3) have same: "steps (result st') = steps (result st)"
    by (auto simp: loop_body_def Let_def split: prod.splits if_splits)
  have below: "unat (steps (result st)) < unat (max_steps options)"
    using 2(1) by (simp add: word_less_nat_alt)
  moreover have "unat (max_steps options) < 2 ^ LENGTH(32)"
    by (rule unsigned_less)
  ultimately have "unat (steps (result st)) + unat (1 :: 32 word) < 2 ^ LENGTH(32)"
    by simp
  then have "unat (steps (result st) + 1) = unat (steps (result st)) + unat (1 :: 32 word)"
    by (simp only: unat_add_lem)
  with same below show ?case
    by simp
qed

declare propagation_loop.simps [simp del]

text \<open>
  \<open>propagate_\<close> (the name cannot end in an underscore here): the check of the internal
  abort conditions on the start state, then the loop. It returns the status and, by
  reference, the result and the cache.
\<close>

definition propagate_' ::
  "('t, 'r::plus, 'k, 's, 'p) Impl \<Rightarrow>
   (('r, 's) internal_aborter \<Rightarrow> ('p, 'r, 'e) Result \<Rightarrow> ('r, 'k) cache_type \<Rightarrow> bool) \<Rightarrow>
   ('p, 'r, 'e, 'k) Options \<Rightarrow> ('r, 's) internal_aborter list \<Rightarrow>
   ('p, 'r, 'e, 'k, 's) run \<Rightarrow> Status \<times> ('p, 'r, 'e, 'k, 's) run" where
  "propagate_' impl cond options internal_stop_conditions st =
     (if AbortList_call cond internal_stop_conditions (result st) (cache st)
      then (FAILURE, st\<lparr>calls := calls st @ [InternalCheck internal_stop_conditions True]\<rparr>)
      else (IN_PROGRESS,
            propagation_loop impl cond options internal_stop_conditions
              (st\<lparr>calls := calls st @ [InternalCheck internal_stop_conditions False]\<rparr>)))"

subsection \<open>The two public overloads of propagate\<close>

text \<open>
  \<open>propagate(start, options)\<close>. The model returns the result together with the log of
  the calls made.
\<close>

definition propagate ::
  "('t, 'r::{zero,one,plus,uminus,times,abs}, 'k, 's, 'p) Impl \<Rightarrow>
   (('r, 's) internal_aborter \<Rightarrow> ('p, 'r, 'e) Result \<Rightarrow> ('r, 'k) cache_type \<Rightarrow> bool) \<Rightarrow>
   'e \<Rightarrow> 't \<Rightarrow> ('p, 'r, 'e, 'k) Options \<Rightarrow>
   ('p, 'r, 'e) Result \<times> ('r, 'k, 's) call list" where
  "propagate impl cond e start options =
     (let result0 = Result_init IN_PROGRESS e;
          cache0 = (cache_from impl start)
                     \<lparr>step_size := direction_value (direction options) * max_step_size options\<rparr>;
          internal_aborters =
            [path_limit_reached
               (\<bar>max_path_length options\<bar> * direction_value (direction options))
               (target_tolerance options)];
          (s, st) = propagate_' impl cond options internal_aborters
                      \<lparr>result = result0, cache = cache0, calls = []\<rparr>
      in if s \<noteq> IN_PROGRESS then (result st, calls st)
         else ((result st)\<lparr>endParameters := Some (convert impl (cache st)),
                            status := SUCCESS\<rparr>,
               calls st @ [Convert (cache st)]))"

text \<open>\<open>propagate(start, target, options)\<close>.\<close>

definition propagate_to ::
  "('t, 'r::{zero,one,plus,uminus,times,abs}, 'k, 's, 'p) Impl \<Rightarrow>
   (('r, 's) internal_aborter \<Rightarrow> ('p, 'r, 'e) Result \<Rightarrow> ('r, 'k) cache_type \<Rightarrow> bool) \<Rightarrow>
   'e \<Rightarrow> 't \<Rightarrow> 's \<Rightarrow> ('p, 'r, 'e, 'k) Options \<Rightarrow>
   ('p, 'r, 'e) Result \<times> ('r, 'k, 's) call list" where
  "propagate_to impl cond e start target options =
     (let cache0 = cache_from_sized impl start
                     (direction_value (direction options) * max_step_size options);
          result0 = Result_init IN_PROGRESS e;
          internal_aborters =
            [surface_reached target (direction options) (target_tolerance options),
             path_limit_reached
               (\<bar>max_path_length options\<bar> * direction_value (direction options))
               (target_tolerance options)];
          (s, st) = propagate_' impl cond options internal_aborters
                      \<lparr>result = result0, cache = cache0, calls = []\<rparr>
      in if s \<noteq> IN_PROGRESS then (result st, calls st)
         else ((result st)\<lparr>endParameters := Some (convert_to impl (cache st) target),
                            status := SUCCESS\<rparr>,
               calls st @ [ConvertTo (cache st) target]))"

subsection \<open>Reading the log\<close>

text \<open>
  The path lengths returned by the calls of \<open>step\<close>, in the order of the calls; its
  length is the number of times \<open>step\<close> was invoked.
\<close>

fun advances :: "('r, 'k, 's) call list \<Rightarrow> 'r list" where
  "advances [] = []"
| "advances (Step a # cs) = a # advances cs"
| "advances (c # cs) = advances cs"

text \<open>The aborter lists that the internal checks of the log were made with.\<close>

fun internal_lists :: "('r, 'k, 's) call list \<Rightarrow> ('r, 's) internal_aborter list list" where
  "internal_lists [] = []"
| "internal_lists (InternalCheck l b # cs) = l # internal_lists cs"
| "internal_lists (c # cs) = internal_lists cs"

text \<open>Whether a logged call is an abort check that returned true.\<close>

fun fired :: "('r, 'k, 's) call \<Rightarrow> bool" where
  "fired (InternalCheck l b) = b"
| "fired (UserCheck b) = b"
| "fired c = False"

text \<open>The calls of the two overloads of \<open>convert\<close> in a log, in the order of the calls.\<close>

fun conversions :: "('r, 'k, 's) call list \<Rightarrow> ('r, 'k, 's) call list" where
  "conversions [] = []"
| "conversions (Convert c # cs) = Convert c # conversions cs"
| "conversions (ConvertTo c t # cs) = ConvertTo c t # conversions cs"
| "conversions (c # cs) = conversions cs"

text \<open>
  Whether the first call of a log is an internal check that returned true: the check of
  the start state, which makes \<open>propagate_\<close> return \<open>FAILURE\<close>.
\<close>

fun initial_check_fired :: "('r, 'k, 's) call list \<Rightarrow> bool" where
  "initial_check_fired (InternalCheck l b # cs) = b"
| "initial_check_fired cs = False"

text \<open>
  Two shapes for the calls of the loop. In \<open>both_evaluated\<close> every pass calls
  \<open>step\<close>, the actions, the user's abort list and the internal abort list, and a pass in
  which either check returned true is the last one. In \<open>short_circuit\<close> the internal abort
  list is called only after the user's abort list returned false.
\<close>

fun both_evaluated :: "('r, 'k, 's) call list \<Rightarrow> bool" where
  "both_evaluated [] = True"
| "both_evaluated (Step a # Actions # UserCheck u # InternalCheck l i # cs) =
     (if u \<or> i then cs = [] else both_evaluated cs)"
| "both_evaluated cs = False"

fun short_circuit :: "('r, 'k, 's) call list \<Rightarrow> bool" where
  "short_circuit [] = True"
| "short_circuit (Step a # Actions # UserCheck True # cs) = (cs = [])"
| "short_circuit (Step a # Actions # UserCheck False # InternalCheck l i # cs) =
     (if i then cs = [] else short_circuit cs)"
| "short_circuit cs = False"

text \<open>The state in which the public overloads enter \<open>propagate_\<close>.\<close>

abbreviation start_run ::
  "('t, 'r::{zero,one,plus,uminus,times,abs}, 'k, 's, 'p) Impl \<Rightarrow> 'e \<Rightarrow> 't \<Rightarrow>
   ('p, 'r, 'e, 'k) Options \<Rightarrow> ('p, 'r, 'e, 'k, 's) run" where
  "start_run impl e start options \<equiv>
     \<lparr>result = Result_init IN_PROGRESS e,
      cache = (cache_from impl start)
        \<lparr>step_size := direction_value (direction options) * max_step_size options\<rparr>,
      calls = []\<rparr>"

abbreviation start_run_to ::
  "('t, 'r::{zero,one,plus,uminus,times,abs}, 'k, 's, 'p) Impl \<Rightarrow> 'e \<Rightarrow> 't \<Rightarrow>
   ('p, 'r, 'e, 'k) Options \<Rightarrow> ('p, 'r, 'e, 'k, 's) run" where
  "start_run_to impl e start options \<equiv>
     \<lparr>result = Result_init IN_PROGRESS e,
      cache = cache_from_sized impl start
        (direction_value (direction options) * max_step_size options),
      calls = []\<rparr>"

subsection \<open>A stepper on a line, for closed instances\<close>

text \<open>
  A stepping implementation that advances a position on the integer line by the step size
  of the cache; \<open>convert\<close> returns the position, \<open>convert(cache, target)\<close> the target.
\<close>

definition line_impl :: "(int, int, int, int, int) Impl" where
  "line_impl =
     \<lparr>cache_from = (\<lambda>start. \<lparr>step_size = 0, kinematics = start\<rparr>),
      cache_from_sized = (\<lambda>start size. \<lparr>step_size = size, kinematics = start\<rparr>),
      step = (\<lambda>c. (step_size c, c\<lparr>kinematics := kinematics c + step_size c\<rparr>)),
      convert = kinematics,
      convert_to = (\<lambda>c target. target)\<rparr>"

text \<open>
  The same stepper with a \<open>convert(cache, target)\<close> that returns the position of the
  cache it is given, so that its value tells which cache was converted.
\<close>

definition line_impl_at :: "(int, int, int, int, int) Impl" where
  "line_impl_at = line_impl\<lparr>convert_to := (\<lambda>c target. kinematics c)\<rparr>"

text \<open>
  Modelled from the spec: \<open>detail/standard_abort_conditions.hpp\<close> is not among the
  sources. The path limit is reached when the path length is within the tolerance of the
  limit or beyond it, the surface when the position is within the tolerance of it.
\<close>

definition standard_abort_conditions ::
  "(int, int) internal_aborter \<Rightarrow> (int, int, 'e) Result \<Rightarrow> (int, int) cache_type \<Rightarrow> bool" where
  "standard_abort_conditions a r c =
     (case a of
        path_limit_reached signed_path_limit tolerance \<Rightarrow>
          \<bar>signed_path_limit\<bar> - \<bar>pathLength r\<bar> \<le> tolerance
      | surface_reached surface d tolerance \<Rightarrow>
          \<bar>surface - kinematics c\<bar> \<le> tolerance)"

definition never_stop :: "('p, 'r, 'e) Result \<Rightarrow> ('r, 'k) cache_type \<Rightarrow> bool" where
  "never_stop r c = False"

definition always_stop :: "('p, 'r, 'e) Result \<Rightarrow> ('r, 'k) cache_type \<Rightarrow> bool" where
  "always_stop r c = True"

text \<open>
  Forward options with tolerance 1 and one action, which counts its invocations in the
  extension payload.
\<close>

definition line_options ::
  "32 word \<Rightarrow> int \<Rightarrow> int \<Rightarrow> ((int, int, nat) Result \<Rightarrow> (int, int) cache_type \<Rightarrow> bool) \<Rightarrow>
   (int, int, nat, int) Options" where
  "line_options n L limit stop =
     \<lparr>direction = forward, max_steps = n, target_tolerance = 1, max_step_size = L,
      max_path_length = limit,
      action_list = (\<lambda>c r. (c, Suc (extensions r))),
      stop_conditions = stop\<rparr>"

lemmas line_simps = propagate_def propagate_to_def propagate_'_def loop_body_def
  AbortList_call_def line_impl_def standard_abort_conditions_def line_options_def
  never_stop_def always_stop_def Result_init_def Let_def propagation_loop.simps

section \<open>Properties of the loop\<close>

lemma unat_increment:
  fixes x y :: "32 word"
  assumes lt: "x < y"
  shows "unat (x + 1) = Suc (unat x)"
proof -
  have "unat x < unat y"
    using lt by (simp add: word_less_nat_alt)
  moreover have "unat y < 2 ^ LENGTH(32)"
    by (rule unsigned_less)
  ultimately have "unat x + unat (1 :: 32 word) < 2 ^ LENGTH(32)"
    by simp
  then have "unat (x + 1) = unat x + unat (1 :: 32 word)"
    by (simp only: unat_add_lem)
  then show ?thesis
    by simp
qed

lemma advances_append: "advances (xs @ ys) = advances xs @ advances ys"
  by (induction xs rule: advances.induct) simp_all

lemma internal_lists_append: "internal_lists (xs @ ys) = internal_lists xs @ internal_lists ys"
  by (induction xs rule: internal_lists.induct) simp_all

lemma propagation_loop_exit:
  "\<not> steps (result st) < max_steps options \<Longrightarrow>
   propagation_loop impl cond options internal st = st"
  by (simp add: propagation_loop.simps)

lemma propagation_loop_break:
  "steps (result st) < max_steps options \<Longrightarrow>
   loop_body impl cond options internal st = (True, st') \<Longrightarrow>
   propagation_loop impl cond options internal st = st'"
  by (simp add: propagation_loop.simps [of impl cond options internal st])

lemma propagation_loop_continue:
  "steps (result st) < max_steps options \<Longrightarrow>
   loop_body impl cond options internal st = (False, st') \<Longrightarrow>
   propagation_loop impl cond options internal st =
     propagation_loop impl cond options internal
       (st'\<lparr>result := (result st')\<lparr>steps := steps (result st') + 1\<rparr>\<rparr>)"
  by (simp add: propagation_loop.simps [of impl cond options internal st])

lemma propagation_loop_invariant:
  assumes start: "P st"
    and body: "\<And>s b s'. P s \<Longrightarrow> steps (result s) < max_steps options \<Longrightarrow>
                 loop_body impl cond options internal s = (b, s') \<Longrightarrow>
                 (if b then P s'
                  else P (s'\<lparr>result := (result s')\<lparr>steps := steps (result s') + 1\<rparr>\<rparr>))"
  shows "P (propagation_loop impl cond options internal st)"
  using start body
proof (induction impl cond options internal st rule: propagation_loop.induct)
  case (1 impl cond options internal st)
  note start = "1.prems"(1) and body = "1.prems"(2)
  show ?case
  proof (cases "steps (result st) < max_steps options")
    case False
    then show ?thesis
      using start by (simp add: propagation_loop_exit)
  next
    case lt: True
    obtain b st' where b: "loop_body impl cond options internal st = (b, st')"
      by (cases "loop_body impl cond options internal st")
    show ?thesis
    proof (cases b)
      case True
      with body [OF start lt b] lt b show ?thesis
        by (simp add: propagation_loop_break)
    next
      case False
      with body [OF start lt b]
      have "P (st'\<lparr>result := (result st')\<lparr>steps := steps (result st') + 1\<rparr>\<rparr>)"
        by simp
      from "1.IH" [OF lt b [symmetric] _ this body] False lt b show ?thesis
        by (simp add: propagation_loop_continue)
    qed
  qed
qed

lemma loop_body_effect:
  assumes "loop_body impl cond options internal st = (b, st')"
  shows "advances (calls st') = advances (calls st) @ [fst (step impl (cache st))]"
    and "pathLength (result st') = pathLength (result st) + fst (step impl (cache st))"
    and "steps (result st') = (if b then steps (result st) + 1 else steps (result st))"
    and "endParameters (result st') = endParameters (result st)"
    and "status (result st') = status (result st)"
  using assms
  by (auto simp: loop_body_def Let_def advances_append internal_lists_append
           split: prod.splits if_splits)

lemma loop_steps:
  assumes "unat (steps (result st)) = length (advances (calls st))"
  shows "unat (steps (result (propagation_loop impl cond options internal st))) =
         length (advances (calls (propagation_loop impl cond options internal st)))"
proof (rule propagation_loop_invariant
    [where P = "\<lambda>s. unat (steps (result s)) = length (advances (calls s))"], goal_cases)
  case 1
  show ?case by (rule assms)
next
  case (2 s b s')
  from loop_body_effect(1,3) [OF 2(3)] 2(1) unat_increment [OF 2(2)] show ?case
    by simp
qed

lemma loop_pathLength:
  assumes "pathLength (result st) = foldl (+) z (advances (calls st))"
  shows "pathLength (result (propagation_loop impl cond options internal st)) =
         foldl (+) z (advances (calls (propagation_loop impl cond options internal st)))"
proof (rule propagation_loop_invariant
    [where P = "\<lambda>s. pathLength (result s) = foldl (+) z (advances (calls s))"], goal_cases)
  case 1
  show ?case by (rule assms)
next
  case (2 s b s')
  from loop_body_effect(1,2) [OF 2(3)] 2(1) show ?case
    by simp
qed

lemma loop_untouched:
  "endParameters (result (propagation_loop impl cond options internal st)) =
     endParameters (result st) \<and>
   status (result (propagation_loop impl cond options internal st)) = status (result st)"
proof (rule propagation_loop_invariant
    [where P = "\<lambda>s. endParameters (result s) = endParameters (result st) \<and>
                      status (result s) = status (result st)"], goal_cases)
  case 1
  show ?case by simp
next
  case (2 s b s')
  from loop_body_effect(4,5) [OF 2(3)] 2(1) show ?case
    by simp
qed

lemma loop_body_calls:
  assumes "loop_body impl cond options internal st = (b, st')"
  shows "(b \<and> (\<exists>a. calls st' = calls st @ [Step a, Actions, UserCheck True])) \<or>
         (b \<and> (\<exists>a. calls st' = calls st @ [Step a, Actions, UserCheck False,
                                              InternalCheck internal True])) \<or>
         (\<not> b \<and> (\<exists>a. calls st' = calls st @ [Step a, Actions, UserCheck False,
                                                InternalCheck internal False]))"
  using assms
  by (auto simp: loop_body_def Let_def split: prod.splits if_splits)

lemma loop_short_circuit:
  "\<exists>tr. calls (propagation_loop impl cond options internal st) = calls st @ tr \<and>
        short_circuit tr"
proof (induction impl cond options internal st rule: propagation_loop.induct)
  case (1 impl cond options internal st)
  show ?case
  proof (cases "steps (result st) < max_steps options")
    case False
    then have "calls (propagation_loop impl cond options internal st) = calls st @ []"
      by (simp add: propagation_loop_exit)
    then show ?thesis
      using short_circuit.simps(1) by blast
  next
    case lt: True
    obtain b st' where b: "loop_body impl cond options internal st = (b, st')"
      by (cases "loop_body impl cond options internal st")
    from loop_body_calls [OF b] consider
      (user) a where "b" "calls st' = calls st @ [Step a, Actions, UserCheck True]"
    | (internal) a where "b" "calls st' = calls st @ [Step a, Actions, UserCheck False,
                                                      InternalCheck internal True]"
    | (continue) a where "\<not> b" "calls st' = calls st @ [Step a, Actions, UserCheck False,
                                                         InternalCheck internal False]"
      by blast
    then show ?thesis
    proof cases
      case user
      have "short_circuit [Step a, Actions, UserCheck True]" by simp
      with user lt b show ?thesis
        by (simp add: propagation_loop_break)
    next
      case internal
      have "short_circuit [Step a, Actions, UserCheck False, InternalCheck internal True]"
        by simp
      with internal lt b show ?thesis
        by (simp add: propagation_loop_break)
    next
      case continue
      let ?st = "st'\<lparr>result := (result st')\<lparr>steps := steps (result st') + 1\<rparr>\<rparr>"
      from continue b have b': "(False, st') = loop_body impl cond options internal st"
        by simp
      from "1.IH" [OF lt b' refl] obtain tr where
        tr: "calls (propagation_loop impl cond options internal ?st) = calls ?st @ tr"
          "short_circuit tr"
        by blast
      have "short_circuit ([Step a, Actions, UserCheck False,
                            InternalCheck internal False] @ tr)"
        using tr(2) by simp
      moreover have "calls (propagation_loop impl cond options internal st) =
                     calls st @ ([Step a, Actions, UserCheck False,
                                  InternalCheck internal False] @ tr)"
        using tr(1) continue lt b by (simp add: propagation_loop_continue)
      ultimately show ?thesis by blast
    qed
  qed
qed

lemma loop_internal_lists:
  "\<exists>tr m. calls (propagation_loop impl cond options internal st) = calls st @ tr \<and>
           internal_lists tr = replicate m internal"
proof (rule propagation_loop_invariant
    [where P = "\<lambda>s. \<exists>tr m. calls s = calls st @ tr \<and> internal_lists tr = replicate m internal"],
    goal_cases)
  case 1
  have "calls st = calls st @ [] \<and> internal_lists [] = replicate 0 internal"
    by simp
  then show ?case by blast
next
  case (2 s b s')
  from 2(1) obtain tr m where tr: "calls s = calls st @ tr" "internal_lists tr = replicate m internal"
    by blast
  from loop_body_calls [OF 2(3)] obtain new where
    new: "calls s' = calls s @ new" "internal_lists new = [] \<or> internal_lists new = [internal]"
    by auto
  have "internal_lists (tr @ new) = replicate m internal \<or>
        internal_lists (tr @ new) = replicate (Suc m) internal"
    using new(2) tr(2) by (auto simp: internal_lists_append replicate_append_same)
  moreover have "calls s' = calls st @ (tr @ new)"
    using tr(1) new(1) by simp
  ultimately have "\<exists>tr m. calls s' = calls st @ tr \<and> internal_lists tr = replicate m internal"
    by blast
  then show ?case by simp
qed

lemma conversions_append: "conversions (xs @ ys) = conversions xs @ conversions ys"
  by (induction xs rule: conversions.induct) simp_all

lemma loop_conversions:
  "conversions (calls (propagation_loop impl cond options internal st)) =
     conversions (calls st)"
proof (rule propagation_loop_invariant
    [where P = "\<lambda>s. conversions (calls s) = conversions (calls st)"], goal_cases)
  case 1
  show ?case by simp
next
  case (2 s b s')
  from loop_body_calls [OF 2(3)] obtain new where
    new: "calls s' = calls s @ new" "conversions new = []"
    by auto
  with 2(1) show ?case
    by (simp add: conversions_append)
qed

lemma propagate_'_conversions:
  "conversions (calls (snd (propagate_' impl cond options internal st))) =
     conversions (calls st)"
  by (simp add: propagate_'_def loop_conversions conversions_append)

text \<open>What the private method leaves behind, started on a fresh result and an empty log.\<close>

lemma propagate_'_fresh:
  fixes impl :: "('t, 'r::{zero,plus}, 'k, 's, 'p) Impl" and e :: 'e
  assumes run: "propagate_' impl cond options internal
                  \<lparr>result = Result_init IN_PROGRESS e, cache = c0, calls = []\<rparr> = (s, st)"
  shows "unat (steps (result st)) = length (advances (calls st))"
    and "pathLength (result st) = foldl (+) 0 (advances (calls st))"
    and "endParameters (result st) = None"
    and "status (result st) = IN_PROGRESS"
    and "\<exists>tr m. calls st = InternalCheck internal (s = FAILURE) # tr \<and>
                 internal_lists tr = replicate m internal"
    and "s = FAILURE \<or> s = IN_PROGRESS"
    and "s = FAILURE \<Longrightarrow> calls st = [InternalCheck internal True] \<and>
           result st = Result_init IN_PROGRESS e \<and> cache st = c0"
    and "s \<noteq> FAILURE \<Longrightarrow> max_steps options = 0 \<Longrightarrow>
           calls st = [InternalCheck internal False] \<and>
           result st = Result_init IN_PROGRESS e \<and> cache st = c0"
proof -
  let ?st0 = "\<lparr>result = Result_init IN_PROGRESS e, cache = c0, calls = []\<rparr>
                :: ('p, 'r, 'e, 'k, 's) run"
  let ?st1 = "?st0\<lparr>calls := calls ?st0 @ [InternalCheck internal False]\<rparr>"
  consider (failed) "s = FAILURE" "st = ?st0\<lparr>calls := calls ?st0 @ [InternalCheck internal True]\<rparr>"
    | (ran) "s = IN_PROGRESS" "st = propagation_loop impl cond options internal ?st1"
    using run by (auto simp: propagate_'_def split: if_splits)
  note cases = this
  have init1: "unat (steps (result ?st1)) = length (advances (calls ?st1))"
    by (simp add: Result_init_def)
  have init2: "pathLength (result ?st1) = foldl (+) 0 (advances (calls ?st1))"
    by (simp add: Result_init_def)
  show "unat (steps (result st)) = length (advances (calls st))"
    using cases
  proof cases
    case failed
    then show ?thesis by (simp add: Result_init_def)
  next
    case ran
    then show ?thesis using loop_steps [OF init1] by simp
  qed
  show "pathLength (result st) = foldl (+) 0 (advances (calls st))"
    using cases
  proof cases
    case failed
    then show ?thesis by (simp add: Result_init_def)
  next
    case ran
    then show ?thesis using loop_pathLength [OF init2] by simp
  qed
  show "endParameters (result st) = None"
    using cases loop_untouched [of impl cond options internal ?st1]
    by cases (simp_all add: Result_init_def)
  show "status (result st) = IN_PROGRESS"
    using cases loop_untouched [of impl cond options internal ?st1]
    by cases (simp_all add: Result_init_def)
  show "\<exists>tr m. calls st = InternalCheck internal (s = FAILURE) # tr \<and>
               internal_lists tr = replicate m internal"
    using cases
  proof cases
    case failed
    have "internal_lists [] = replicate 0 internal"
      by simp
    with failed show ?thesis by auto
  next
    case ran
    from loop_internal_lists [of impl cond options internal ?st1] ran
    show ?thesis by auto
  qed
  show "s = FAILURE \<or> s = IN_PROGRESS"
    using cases by cases simp_all
  show "calls st = [InternalCheck internal True] \<and>
        result st = Result_init IN_PROGRESS e \<and> cache st = c0" if "s = FAILURE"
    using cases that by cases simp_all
  show "calls st = [InternalCheck internal False] \<and>
        result st = Result_init IN_PROGRESS e \<and> cache st = c0"
    if "s \<noteq> FAILURE" "max_steps options = 0"
    using cases that
  proof cases
    case failed
    with that show ?thesis by simp
  next
    case ran
    have "\<not> steps (result ?st1) < max_steps options"
      using that(2) by simp
    then have "propagation_loop impl cond options internal ?st1 = ?st1"
      by (rule propagation_loop_exit)
    with ran show ?thesis
      by simp
  qed
qed

section \<open>What the public overloads return\<close>

lemma propagate_readout:
  fixes impl :: "('t, 'r::{zero,one,plus,uminus,times,abs}, 'k, 's, 'p) Impl" and e :: 'e
  assumes run: "propagate_' impl cond options
                  [path_limit_reached
                     (\<bar>max_path_length options\<bar> * direction_value (direction options))
                     (target_tolerance options)]
                  (start_run impl e start options) = (s, st)"
  shows "steps (fst (propagate impl cond e start options)) = steps (result st)"
    and "pathLength (fst (propagate impl cond e start options)) = pathLength (result st)"
    and "status (fst (propagate impl cond e start options)) =
           (if s = FAILURE then IN_PROGRESS else SUCCESS)"
    and "endParameters (fst (propagate impl cond e start options)) =
           (if s = FAILURE then None else Some (convert impl (cache st)))"
    and "snd (propagate impl cond e start options) =
           calls st @ (if s = FAILURE then [] else [Convert (cache st)])"
  using propagate_'_fresh(3,4,6) [OF run] run
  by (auto simp: propagate_def Let_def)

lemma propagate_to_readout:
  fixes impl :: "('t, 'r::{zero,one,plus,uminus,times,abs}, 'k, 's, 'p) Impl" and e :: 'e
  assumes run: "propagate_' impl cond options
                  [surface_reached target (direction options) (target_tolerance options),
                   path_limit_reached
                     (\<bar>max_path_length options\<bar> * direction_value (direction options))
                     (target_tolerance options)]
                  (start_run_to impl e start options) = (s, st)"
  shows "steps (fst (propagate_to impl cond e start target options)) = steps (result st)"
    and "pathLength (fst (propagate_to impl cond e start target options)) =
           pathLength (result st)"
    and "status (fst (propagate_to impl cond e start target options)) =
           (if s = FAILURE then IN_PROGRESS else SUCCESS)"
    and "endParameters (fst (propagate_to impl cond e start target options)) =
           (if s = FAILURE then None else Some (convert_to impl (cache st) target))"
    and "snd (propagate_to impl cond e start target options) =
           calls st @ (if s = FAILURE then [] else [ConvertTo (cache st) target])"
  using propagate_'_fresh(3,4,6) [OF run] run
  by (auto simp: propagate_to_def Let_def)

text \<open>
  With an addition that is associative and has \<open>0\<close> as its unit, the left-to-right
  accumulation of the loop is the sum of the list.
\<close>

lemma foldl_plus_sum_list: "foldl (+) z xs = (z :: 'a::monoid_add) + sum_list xs"
  by (induction xs arbitrary: z) (simp_all add: add.assoc)

section \<open>The claims\<close>

text \<open>
  C1, as stated: \<open>result.steps\<close> is the number of calls of \<open>step\<close>, plus one if the loop
  ended by a \<open>break\<close>. The code refutes it. With a user abort list that always fires the
  loop breaks in its first pass: \<open>step\<close> was called once and \<open>result.steps\<close> is 1, not 2.
\<close>

theorem steps_extra_after_break_counterexample:
  "\<not> initial_check_fired
       (snd (propagate line_impl standard_abort_conditions 0 0
               (line_options 3 10 1000 always_stop))) \<and>
   list_ex fired
     (snd (propagate line_impl standard_abort_conditions 0 0
             (line_options 3 10 1000 always_stop))) \<and>
   length (advances
     (snd (propagate line_impl standard_abort_conditions 0 0
             (line_options 3 10 1000 always_stop)))) = 1 \<and>
   unat (steps
     (fst (propagate line_impl standard_abort_conditions 0 0
             (line_options 3 10 1000 always_stop)))) \<noteq>
   length (advances
     (snd (propagate line_impl standard_abort_conditions 0 0
             (line_options 3 10 1000 always_stop)))) + 1"
  by (simp add: line_simps)

text \<open>
  C1, amended: for every call of either overload of \<open>propagate\<close>, \<open>result.steps\<close> is the
  number of times \<open>step(cache)\<close> was invoked, whether the loop ended by a \<open>break\<close> or by
  reaching \<open>max_steps\<close>: the increment before the \<open>break\<close> stands for the increment of the
  loop header, which the \<open>break\<close> skips. The counter does not wrap around.
\<close>

theorem steps_count_step_calls:
  fixes impl :: "('t, 'r::{zero,one,plus,uminus,times,abs}, 'k, 's, 'p) Impl" and e :: 'e
  shows "unat (steps (fst (propagate impl cond e start options))) =
           length (advances (snd (propagate impl cond e start options))) \<and>
         unat (steps (fst (propagate_to impl cond e start target options))) =
           length (advances (snd (propagate_to impl cond e start target options)))"
proof
  obtain s st where run: "propagate_' impl cond options
      [path_limit_reached
         (\<bar>max_path_length options\<bar> * direction_value (direction options))
         (target_tolerance options)]
      (start_run impl e start options) = (s, st)"
    by (rule prod.exhaust)
  from propagate_'_fresh(1) [OF run] propagate_readout(1,5) [OF run]
  show "unat (steps (fst (propagate impl cond e start options))) =
          length (advances (snd (propagate impl cond e start options)))"
    by (simp add: advances_append)
next
  obtain s st where run: "propagate_' impl cond options
      [surface_reached target (direction options) (target_tolerance options),
       path_limit_reached
         (\<bar>max_path_length options\<bar> * direction_value (direction options))
         (target_tolerance options)]
      (start_run_to impl e start options) = (s, st)"
    by (rule prod.exhaust)
  from propagate_'_fresh(1) [OF run] propagate_to_readout(1,5) [OF run]
  show "unat (steps (fst (propagate_to impl cond e start target options))) =
          length (advances (snd (propagate_to impl cond e start target options)))"
    by (simp add: advances_append)
qed

text \<open>
  C2: the status of the result that \<open>propagate\<close> returns is never \<open>IN_PROGRESS\<close>. The code
  does not keep to it. With a path limit of 0 the internal abort list holds on the start
  state, \<open>propagate_\<close> returns \<open>FAILURE\<close>, and the caller leaves the result as it was
  constructed, with the status \<open>IN_PROGRESS\<close>; likewise for a start on the target surface.
\<close>

theorem failed_propagate_status_IN_PROGRESS:
  "initial_check_fired
     (snd (propagate line_impl standard_abort_conditions 0 0
             (line_options 3 10 0 never_stop))) \<and>
   status (fst (propagate line_impl standard_abort_conditions 0 0
                  (line_options 3 10 0 never_stop))) = IN_PROGRESS \<and>
   initial_check_fired
     (snd (propagate_to line_impl standard_abort_conditions 0 0 0
             (line_options 5 10 200 never_stop))) \<and>
   status (fst (propagate_to line_impl standard_abort_conditions 0 0 0
                  (line_options 5 10 200 never_stop))) = IN_PROGRESS"
  by (simp add: line_simps)

text \<open>
  C3: \<open>propagate_\<close> returns \<open>FAILURE\<close> exactly when the internal abort conditions hold on
  the state it is called with, before any step: the check is then the only call it makes,
  and it leaves the result and the cache as they were. In every other case, however the
  loop ends, it returns \<open>IN_PROGRESS\<close>.
\<close>

theorem propagate_'_status:
  "fst (propagate_' impl cond options internal st) =
     (if AbortList_call cond internal (result st) (cache st) then FAILURE else IN_PROGRESS) \<and>
   (fst (propagate_' impl cond options internal st) = FAILURE) =
     AbortList_call cond internal (result st) (cache st) \<and>
   (fst (propagate_' impl cond options internal st) \<noteq> FAILURE) =
     (fst (propagate_' impl cond options internal st) = IN_PROGRESS) \<and>
   (fst (propagate_' impl cond options internal st) = FAILURE \<longrightarrow>
      snd (propagate_' impl cond options internal st) =
        st\<lparr>calls := calls st @ [InternalCheck internal True]\<rparr>)"
  by (simp add: propagate_'_def)

text \<open>
  The line stepper with a path limit of 0: the check of the start state fires. With a
  path limit of 1000, the loop that runs into \<open>max_steps\<close> and the loop that is left by a
  \<open>break\<close> both end in \<open>IN_PROGRESS\<close>.
\<close>

theorem propagate_'_status_witness:
  "fst (propagate_' line_impl standard_abort_conditions (line_options 3 10 0 never_stop)
          [path_limit_reached 0 1]
          \<lparr>result = Result_init IN_PROGRESS 0,
           cache = \<lparr>step_size = 10, kinematics = 0\<rparr>, calls = []\<rparr>) = FAILURE \<and>
   snd (propagate_' line_impl standard_abort_conditions (line_options 3 10 0 never_stop)
          [path_limit_reached 0 1]
          \<lparr>result = Result_init IN_PROGRESS 0,
           cache = \<lparr>step_size = 10, kinematics = 0\<rparr>, calls = []\<rparr>) =
     \<lparr>result = Result_init IN_PROGRESS 0,
      cache = \<lparr>step_size = 10, kinematics = 0\<rparr>,
      calls = [InternalCheck [path_limit_reached 0 1] True]\<rparr> \<and>
   fst (propagate_' line_impl standard_abort_conditions (line_options 3 10 1000 never_stop)
          [path_limit_reached 1000 1]
          \<lparr>result = Result_init IN_PROGRESS 0,
           cache = \<lparr>step_size = 10, kinematics = 0\<rparr>, calls = []\<rparr>) = IN_PROGRESS \<and>
   fst (propagate_' line_impl standard_abort_conditions (line_options 3 10 1000 always_stop)
          [path_limit_reached 1000 1]
          \<lparr>result = Result_init IN_PROGRESS 0,
           cache = \<lparr>step_size = 10, kinematics = 0\<rparr>, calls = []\<rparr>) = IN_PROGRESS"
proof -
  let ?st = "\<lparr>result = Result_init IN_PROGRESS (0 :: nat),
              cache = \<lparr>step_size = 10 :: int, kinematics = 0 :: int\<rparr>,
              calls = []\<rparr> :: (int, int, nat, int, int) run"
  have fires: "AbortList_call standard_abort_conditions [path_limit_reached 0 1]
                 (result ?st) (cache ?st)"
    by (simp add: AbortList_call_def standard_abort_conditions_def Result_init_def)
  have quiet: "\<not> AbortList_call standard_abort_conditions [path_limit_reached 1000 1]
                   (result ?st) (cache ?st)"
    by (simp add: AbortList_call_def standard_abort_conditions_def Result_init_def)
  note failure = propagate_'_status
    [of line_impl standard_abort_conditions "line_options 3 10 0 never_stop"
        "[path_limit_reached 0 1]" ?st]
  have failed: "fst (propagate_' line_impl standard_abort_conditions
                       (line_options 3 10 0 never_stop) [path_limit_reached 0 1] ?st) = FAILURE"
    using failure fires by simp
  from failure have "snd (propagate_' line_impl standard_abort_conditions
                       (line_options 3 10 0 never_stop) [path_limit_reached 0 1] ?st) =
                     ?st\<lparr>calls := calls ?st @ [InternalCheck [path_limit_reached 0 1] True]\<rparr>"
    using failed by blast
  moreover have "fst (propagate_' line_impl standard_abort_conditions
                        (line_options 3 10 1000 never_stop) [path_limit_reached 1000 1] ?st) =
                 IN_PROGRESS"
    using propagate_'_status
      [of line_impl standard_abort_conditions "line_options 3 10 1000 never_stop"
          "[path_limit_reached 1000 1]" ?st] quiet
    by simp
  moreover have "fst (propagate_' line_impl standard_abort_conditions
                        (line_options 3 10 1000 always_stop) [path_limit_reached 1000 1] ?st) =
                 IN_PROGRESS"
    using propagate_'_status
      [of line_impl standard_abort_conditions "line_options 3 10 1000 always_stop"
          "[path_limit_reached 1000 1]" ?st] quiet
    by simp
  ultimately show ?thesis
    using failed by simp
qed

text \<open>
  C4: the validity test of a result is true exactly when the final parameters are present
  and the status is \<open>SUCCESS\<close>; it is false for a result whose status is \<open>FAILURE\<close>,
  \<open>UNSET\<close> or \<open>IN_PROGRESS\<close>.
\<close>

theorem isValid_iff:
  "isValid r = ((\<exists>p. endParameters r = Some p) \<and> status r = SUCCESS) \<and>
   \<not> isValid (r\<lparr>status := FAILURE\<rparr>) \<and>
   \<not> isValid (r\<lparr>status := UNSET\<rparr>) \<and>
   \<not> isValid (r\<lparr>status := IN_PROGRESS\<rparr>)"
  by (simp add: isValid_def)

text \<open>
  C5, as stated: in every pass of the loop both the user's abort list and the internal
  abort list are evaluated. The code refutes it. With a user abort list that always fires
  and a path limit that is reached by the first step, both conditions hold on the state
  after the actions, and the log shows the call of the user's abort list but none of the
  internal abort list.
\<close>

theorem both_evaluated_counterexample:
  "always_stop
     \<lparr>endParameters = None, status = IN_PROGRESS, steps = 0, pathLength = 10,
      extensions = Suc 0\<rparr>
     \<lparr>step_size = 10, kinematics = 10\<rparr> \<and>
   AbortList_call standard_abort_conditions [path_limit_reached 10 1]
     \<lparr>endParameters = None, status = IN_PROGRESS, steps = 0, pathLength = 10,
      extensions = Suc 0\<rparr>
     \<lparr>step_size = 10, kinematics = 10\<rparr> \<and>
   calls (snd (propagate_' line_impl standard_abort_conditions
                 (line_options 5 10 10 always_stop) [path_limit_reached 10 1]
                 \<lparr>result = Result_init IN_PROGRESS 0,
                  cache = \<lparr>step_size = 10, kinematics = 0\<rparr>, calls = []\<rparr>)) =
     [InternalCheck [path_limit_reached 10 1] False, Step 10, Actions, UserCheck True] \<and>
   \<not> both_evaluated
       (tl (calls (snd (propagate_' line_impl standard_abort_conditions
                          (line_options 5 10 10 always_stop) [path_limit_reached 10 1]
                          \<lparr>result = Result_init IN_PROGRESS 0,
                           cache = \<lparr>step_size = 10, kinematics = 0\<rparr>, calls = []\<rparr>))))"
  by (simp add: line_simps)

text \<open>
  C5, amended: in every pass of the loop, after the step and the actions, the user's abort
  list is evaluated first; the internal abort list is evaluated after it only if the
  user's abort list returned false. Either of them returning true ends the loop: no call
  follows it.
\<close>

theorem checks_short_circuit:
  "\<exists>b tr. calls (snd (propagate_' impl cond options internal st)) =
             calls st @ InternalCheck internal b # tr \<and>
          short_circuit tr"
proof (cases "AbortList_call cond internal (result st) (cache st)")
  case True
  then have "calls (snd (propagate_' impl cond options internal st)) =
             calls st @ InternalCheck internal True # []"
    by (simp add: propagate_'_def)
  moreover have "short_circuit ([] :: ('a, 'b, 'c) call list)"
    by simp
  ultimately show ?thesis by blast
next
  case False
  let ?st1 = "st\<lparr>calls := calls st @ [InternalCheck internal False]\<rparr>"
  from loop_short_circuit [of impl cond options internal ?st1] obtain tr where
    tr: "calls (propagation_loop impl cond options internal ?st1) = calls ?st1 @ tr"
      "short_circuit tr"
    by blast
  from False tr(1) have "calls (snd (propagate_' impl cond options internal st)) =
                         calls st @ InternalCheck internal False # tr"
    by (simp add: propagate_'_def)
  with tr(2) show ?thesis by blast
qed

text \<open>
  C6: a call of \<open>propagate\<close> with \<open>max_steps == 0\<close> whose check of the start state does not
  fire never runs the loop body. The only calls are the check and the conversion, which
  receives the cache as it was set up from the start parameters; the result has
  \<open>steps == 0\<close>, \<open>pathLength == 0\<close> and the status \<open>SUCCESS\<close>. The same holds for the
  overload with a target surface.
\<close>

theorem zero_max_steps:
  fixes impl :: "('t, 'r::{zero,one,plus,uminus,times,abs}, 'k, 's, 'p) Impl" and e :: 'e
  assumes zero: "max_steps options = 0"
  shows "(\<not> initial_check_fired (snd (propagate impl cond e start options)) \<longrightarrow>
            steps (fst (propagate impl cond e start options)) = 0 \<and>
            pathLength (fst (propagate impl cond e start options)) = 0 \<and>
            status (fst (propagate impl cond e start options)) = SUCCESS \<and>
            endParameters (fst (propagate impl cond e start options)) =
              Some (convert impl ((cache_from impl start)
                \<lparr>step_size := direction_value (direction options) * max_step_size options\<rparr>)) \<and>
            snd (propagate impl cond e start options) =
              [InternalCheck
                 [path_limit_reached
                    (\<bar>max_path_length options\<bar> * direction_value (direction options))
                    (target_tolerance options)] False,
               Convert ((cache_from impl start)
                 \<lparr>step_size := direction_value (direction options) * max_step_size options\<rparr>)]) \<and>
         (\<not> initial_check_fired (snd (propagate_to impl cond e start target options)) \<longrightarrow>
            steps (fst (propagate_to impl cond e start target options)) = 0 \<and>
            pathLength (fst (propagate_to impl cond e start target options)) = 0 \<and>
            status (fst (propagate_to impl cond e start target options)) = SUCCESS \<and>
            endParameters (fst (propagate_to impl cond e start target options)) =
              Some (convert_to impl (cache_from_sized impl start
                (direction_value (direction options) * max_step_size options)) target) \<and>
            snd (propagate_to impl cond e start target options) =
              [InternalCheck
                 [surface_reached target (direction options) (target_tolerance options),
                  path_limit_reached
                    (\<bar>max_path_length options\<bar> * direction_value (direction options))
                    (target_tolerance options)] False,
               ConvertTo (cache_from_sized impl start
                 (direction_value (direction options) * max_step_size options)) target])"
proof (intro conjI impI)
  assume quiet: "\<not> initial_check_fired (snd (propagate impl cond e start options))"
  obtain s st where run: "propagate_' impl cond options
      [path_limit_reached
         (\<bar>max_path_length options\<bar> * direction_value (direction options))
         (target_tolerance options)]
      (start_run impl e start options) = (s, st)"
    by (rule prod.exhaust)
  note out = propagate_readout [OF run]
  have s: "s \<noteq> FAILURE"
    using quiet propagate_'_fresh(7) [OF run] out(5) by auto
  note st = propagate_'_fresh(8) [OF run s zero]
  show "steps (fst (propagate impl cond e start options)) = 0"
    using out(1) st by (simp add: Result_init_def)
  show "pathLength (fst (propagate impl cond e start options)) = 0"
    using out(2) st by (simp add: Result_init_def)
  show "status (fst (propagate impl cond e start options)) = SUCCESS"
    using out(3) s by simp
  show "endParameters (fst (propagate impl cond e start options)) =
          Some (convert impl ((cache_from impl start)
            \<lparr>step_size := direction_value (direction options) * max_step_size options\<rparr>))"
    using out(4) s st by simp
  show "snd (propagate impl cond e start options) =
          [InternalCheck
             [path_limit_reached
                (\<bar>max_path_length options\<bar> * direction_value (direction options))
                (target_tolerance options)] False,
           Convert ((cache_from impl start)
             \<lparr>step_size := direction_value (direction options) * max_step_size options\<rparr>)]"
    using out(5) s st by simp
next
  assume quiet: "\<not> initial_check_fired (snd (propagate_to impl cond e start target options))"
  obtain s st where run: "propagate_' impl cond options
      [surface_reached target (direction options) (target_tolerance options),
       path_limit_reached
         (\<bar>max_path_length options\<bar> * direction_value (direction options))
         (target_tolerance options)]
      (start_run_to impl e start options) = (s, st)"
    by (rule prod.exhaust)
  note out = propagate_to_readout [OF run]
  have s: "s \<noteq> FAILURE"
    using quiet propagate_'_fresh(7) [OF run] out(5) by auto
  note st = propagate_'_fresh(8) [OF run s zero]
  show "steps (fst (propagate_to impl cond e start target options)) = 0"
    using out(1) st by (simp add: Result_init_def)
  show "pathLength (fst (propagate_to impl cond e start target options)) = 0"
    using out(2) st by (simp add: Result_init_def)
  show "status (fst (propagate_to impl cond e start target options)) = SUCCESS"
    using out(3) s by simp
  show "endParameters (fst (propagate_to impl cond e start target options)) =
          Some (convert_to impl (cache_from_sized impl start
            (direction_value (direction options) * max_step_size options)) target)"
    using out(4) s st by simp
  show "snd (propagate_to impl cond e start target options) =
          [InternalCheck
             [surface_reached target (direction options) (target_tolerance options),
              path_limit_reached
                (\<bar>max_path_length options\<bar> * direction_value (direction options))
                (target_tolerance options)] False,
           ConvertTo (cache_from_sized impl start
             (direction_value (direction options) * max_step_size options)) target]"
    using out(5) s st by simp
qed

text \<open>
  The line stepper with \<open>max_steps = 0\<close>, started at position 7: both overloads
  convert the start cache without a step.
\<close>

theorem zero_max_steps_witness:
  "max_steps (line_options 0 10 1000 never_stop) = 0 \<and>
   \<not> initial_check_fired
       (snd (propagate line_impl standard_abort_conditions 0 7
               (line_options 0 10 1000 never_stop))) \<and>
   steps (fst (propagate line_impl standard_abort_conditions 0 7
                 (line_options 0 10 1000 never_stop))) = 0 \<and>
   pathLength (fst (propagate line_impl standard_abort_conditions 0 7
                      (line_options 0 10 1000 never_stop))) = 0 \<and>
   status (fst (propagate line_impl standard_abort_conditions 0 7
                  (line_options 0 10 1000 never_stop))) = SUCCESS \<and>
   endParameters (fst (propagate line_impl standard_abort_conditions 0 7
                         (line_options 0 10 1000 never_stop))) = Some 7 \<and>
   snd (propagate line_impl standard_abort_conditions 0 7
          (line_options 0 10 1000 never_stop)) =
     [InternalCheck [path_limit_reached 1000 1] False,
      Convert \<lparr>step_size = 10, kinematics = 7\<rparr>] \<and>
   \<not> initial_check_fired
       (snd (propagate_to line_impl standard_abort_conditions 0 7 30
               (line_options 0 10 1000 never_stop))) \<and>
   steps (fst (propagate_to line_impl standard_abort_conditions 0 7 30
                 (line_options 0 10 1000 never_stop))) = 0 \<and>
   pathLength (fst (propagate_to line_impl standard_abort_conditions 0 7 30
                      (line_options 0 10 1000 never_stop))) = 0 \<and>
   status (fst (propagate_to line_impl standard_abort_conditions 0 7 30
                  (line_options 0 10 1000 never_stop))) = SUCCESS \<and>
   endParameters (fst (propagate_to line_impl standard_abort_conditions 0 7 30
                         (line_options 0 10 1000 never_stop))) = Some 30 \<and>
   snd (propagate_to line_impl standard_abort_conditions 0 7 30
          (line_options 0 10 1000 never_stop)) =
     [InternalCheck [surface_reached 30 forward 1, path_limit_reached 1000 1] False,
      ConvertTo \<lparr>step_size = 10, kinematics = 7\<rparr> 30]"
proof -
  have zero: "max_steps (line_options 0 10 1000 never_stop) = 0"
    by (simp add: line_options_def)
  have quiet: "\<not> initial_check_fired
       (snd (propagate line_impl standard_abort_conditions 0 7
               (line_options 0 10 1000 never_stop)))"
    by (simp add: line_simps)
  have quiet_to: "\<not> initial_check_fired
       (snd (propagate_to line_impl standard_abort_conditions 0 7 30
               (line_options 0 10 1000 never_stop)))"
    by (simp add: line_simps)
  note inst = zero_max_steps [OF zero, of line_impl standard_abort_conditions 0 7 30]
  from inst [THEN conjunct1, rule_format, OF quiet]
    inst [THEN conjunct2, rule_format, OF quiet_to] zero quiet quiet_to
  show ?thesis
    by (simp add: line_impl_def line_options_def)
qed

text \<open>
  C7: \<open>propagate(start, options)\<close> builds an internal abort list that holds only
  \<open>path_limit_reached\<close>, with \<open>signed_path_limit = |max_path_length| * direction\<close> and
  \<open>tolerance = target_tolerance\<close>, before it runs the loop: the first call of all is the
  check of this list, and every later internal check is made with the same list.
\<close>

theorem unconstrained_internal_aborters:
  fixes impl :: "('t, 'r::{zero,one,plus,uminus,times,abs}, 'k, 's, 'p) Impl" and e :: 'e
  shows "\<exists>b tr m.
           snd (propagate impl cond e start options) =
             InternalCheck
               [path_limit_reached
                  (\<bar>max_path_length options\<bar> * direction_value (direction options))
                  (target_tolerance options)] b # tr \<and>
           internal_lists tr =
             replicate m
               [path_limit_reached
                  (\<bar>max_path_length options\<bar> * direction_value (direction options))
                  (target_tolerance options)]"
proof -
  obtain s st where run: "propagate_' impl cond options
      [path_limit_reached
         (\<bar>max_path_length options\<bar> * direction_value (direction options))
         (target_tolerance options)]
      (start_run impl e start options) = (s, st)"
    by (rule prod.exhaust)
  from propagate_'_fresh(5) [OF run] obtain tr m where
    tr: "calls st =
           InternalCheck
             [path_limit_reached
                (\<bar>max_path_length options\<bar> * direction_value (direction options))
                (target_tolerance options)] (s = FAILURE) # tr"
      "internal_lists tr =
         replicate m
           [path_limit_reached
              (\<bar>max_path_length options\<bar> * direction_value (direction options))
              (target_tolerance options)]"
    by blast
  let ?tail = "tr @ (if s = FAILURE then [] else [Convert (cache st)])"
  have "snd (propagate impl cond e start options) =
          InternalCheck
            [path_limit_reached
               (\<bar>max_path_length options\<bar> * direction_value (direction options))
               (target_tolerance options)] (s = FAILURE) # ?tail"
    using propagate_readout(5) [OF run] tr(1) by simp
  moreover have "internal_lists ?tail =
          replicate m
            [path_limit_reached
               (\<bar>max_path_length options\<bar> * direction_value (direction options))
               (target_tolerance options)]"
    using tr(2) by (simp add: internal_lists_append)
  ultimately show ?thesis by blast
qed

text \<open>
  C8: \<open>propagate(start, target, options)\<close> builds an internal abort list of
  \<open>surface_reached\<close>, configured with the target, the direction and \<open>target_tolerance\<close>,
  followed by \<open>path_limit_reached\<close>: the first call of all is the check of this list, and
  every later internal check is made with the same list. When the check of the start state
  does not fire, the call ends with \<open>convert(cache, target)\<close> on the cache that
  \<open>propagate_\<close> has left behind; this is the only conversion of the call, and its value
  becomes the final parameters of a result with the status \<open>SUCCESS\<close>.
\<close>

theorem targeted_internal_aborters_and_conversion:
  fixes impl :: "('t, 'r::{zero,one,plus,uminus,times,abs}, 'k, 's, 'p) Impl" and e :: 'e
  shows "(\<exists>b tr m.
           snd (propagate_to impl cond e start target options) =
             InternalCheck
               [surface_reached target (direction options) (target_tolerance options),
                path_limit_reached
                  (\<bar>max_path_length options\<bar> * direction_value (direction options))
                  (target_tolerance options)] b # tr \<and>
           internal_lists tr =
             replicate m
               [surface_reached target (direction options) (target_tolerance options),
                path_limit_reached
                  (\<bar>max_path_length options\<bar> * direction_value (direction options))
                  (target_tolerance options)]) \<and>
         (\<not> initial_check_fired (snd (propagate_to impl cond e start target options)) \<longrightarrow>
            status (fst (propagate_to impl cond e start target options)) = SUCCESS \<and>
            last (snd (propagate_to impl cond e start target options)) =
              ConvertTo
                (cache (snd (propagate_' impl cond options
                   [surface_reached target (direction options) (target_tolerance options),
                    path_limit_reached
                      (\<bar>max_path_length options\<bar> * direction_value (direction options))
                      (target_tolerance options)]
                   (start_run_to impl e start options))))
                target \<and>
            conversions (snd (propagate_to impl cond e start target options)) =
              [ConvertTo
                 (cache (snd (propagate_' impl cond options
                    [surface_reached target (direction options) (target_tolerance options),
                     path_limit_reached
                       (\<bar>max_path_length options\<bar> * direction_value (direction options))
                       (target_tolerance options)]
                    (start_run_to impl e start options))))
                 target] \<and>
            endParameters (fst (propagate_to impl cond e start target options)) =
              Some (convert_to impl
                (cache (snd (propagate_' impl cond options
                   [surface_reached target (direction options) (target_tolerance options),
                    path_limit_reached
                      (\<bar>max_path_length options\<bar> * direction_value (direction options))
                      (target_tolerance options)]
                   (start_run_to impl e start options))))
                target))"
proof (intro conjI impI)
  obtain s st where run: "propagate_' impl cond options
      [surface_reached target (direction options) (target_tolerance options),
       path_limit_reached
         (\<bar>max_path_length options\<bar> * direction_value (direction options))
         (target_tolerance options)]
      (start_run_to impl e start options) = (s, st)"
    by (rule prod.exhaust)
  note out = propagate_to_readout [OF run]
  from propagate_'_fresh(5) [OF run] obtain tr m where
    tr: "calls st =
           InternalCheck
             [surface_reached target (direction options) (target_tolerance options),
              path_limit_reached
                (\<bar>max_path_length options\<bar> * direction_value (direction options))
                (target_tolerance options)] (s = FAILURE) # tr"
      "internal_lists tr =
         replicate m
           [surface_reached target (direction options) (target_tolerance options),
            path_limit_reached
              (\<bar>max_path_length options\<bar> * direction_value (direction options))
              (target_tolerance options)]"
    by blast
  let ?tail = "tr @ (if s = FAILURE then [] else [ConvertTo (cache st) target])"
  have "snd (propagate_to impl cond e start target options) =
          InternalCheck
            [surface_reached target (direction options) (target_tolerance options),
             path_limit_reached
               (\<bar>max_path_length options\<bar> * direction_value (direction options))
               (target_tolerance options)] (s = FAILURE) # ?tail"
    using out(5) tr(1) by simp
  moreover have "internal_lists ?tail =
          replicate m
            [surface_reached target (direction options) (target_tolerance options),
             path_limit_reached
               (\<bar>max_path_length options\<bar> * direction_value (direction options))
               (target_tolerance options)]"
    using tr(2) by (simp add: internal_lists_append)
  ultimately show "\<exists>b tr m.
           snd (propagate_to impl cond e start target options) =
             InternalCheck
               [surface_reached target (direction options) (target_tolerance options),
                path_limit_reached
                  (\<bar>max_path_length options\<bar> * direction_value (direction options))
                  (target_tolerance options)] b # tr \<and>
           internal_lists tr =
             replicate m
               [surface_reached target (direction options) (target_tolerance options),
                path_limit_reached
                  (\<bar>max_path_length options\<bar> * direction_value (direction options))
                  (target_tolerance options)]"
    by blast
  assume quiet: "\<not> initial_check_fired (snd (propagate_to impl cond e start target options))"
  have s: "s \<noteq> FAILURE"
    using quiet propagate_'_fresh(7) [OF run] out(5) by auto
  have final: "snd (propagate_' impl cond options
      [surface_reached target (direction options) (target_tolerance options),
       path_limit_reached
         (\<bar>max_path_length options\<bar> * direction_value (direction options))
         (target_tolerance options)]
      (start_run_to impl e start options)) = st"
    using run by simp
  have no_conversion: "conversions (calls st) = []"
    using propagate_'_conversions
      [of impl cond options
          "[surface_reached target (direction options) (target_tolerance options),
            path_limit_reached
              (\<bar>max_path_length options\<bar> * direction_value (direction options))
              (target_tolerance options)]"
          "start_run_to impl e start options"]
    by (simp add: final)
  show "status (fst (propagate_to impl cond e start target options)) = SUCCESS"
    using out(3) s by simp
  show "last (snd (propagate_to impl cond e start target options)) =
          ConvertTo
            (cache (snd (propagate_' impl cond options
               [surface_reached target (direction options) (target_tolerance options),
                path_limit_reached
                  (\<bar>max_path_length options\<bar> * direction_value (direction options))
                  (target_tolerance options)]
               (start_run_to impl e start options))))
            target"
    using out(5) s by (simp add: final)
  show "conversions (snd (propagate_to impl cond e start target options)) =
          [ConvertTo
             (cache (snd (propagate_' impl cond options
                [surface_reached target (direction options) (target_tolerance options),
                 path_limit_reached
                   (\<bar>max_path_length options\<bar> * direction_value (direction options))
                   (target_tolerance options)]
                (start_run_to impl e start options))))
             target]"
    using out(5) s no_conversion by (simp add: final conversions_append)
  show "endParameters (fst (propagate_to impl cond e start target options)) =
          Some (convert_to impl
            (cache (snd (propagate_' impl cond options
               [surface_reached target (direction options) (target_tolerance options),
                path_limit_reached
                  (\<bar>max_path_length options\<bar> * direction_value (direction options))
                  (target_tolerance options)]
               (start_run_to impl e start options))))
            target)"
    using out(4) s by (simp add: final)
qed

text \<open>
  The stepper whose conversion returns the position of its cache, sent from 0 towards the
  surface at 31 in steps of 10 with tolerance 1: the loop ends at position 30, and it is
  this cache, neither the start cache nor the target, that is converted.
\<close>

theorem targeted_internal_aborters_and_conversion_witness:
  "\<not> initial_check_fired
       (snd (propagate_to line_impl_at standard_abort_conditions 0 0 31
               (line_options 5 10 200 never_stop))) \<and>
   status (fst (propagate_to line_impl_at standard_abort_conditions 0 0 31
                  (line_options 5 10 200 never_stop))) = SUCCESS \<and>
   last (snd (propagate_to line_impl_at standard_abort_conditions 0 0 31
                (line_options 5 10 200 never_stop))) =
     ConvertTo \<lparr>step_size = 10, kinematics = 30\<rparr> 31 \<and>
   conversions (snd (propagate_to line_impl_at standard_abort_conditions 0 0 31
                       (line_options 5 10 200 never_stop))) =
     [ConvertTo \<lparr>step_size = 10, kinematics = 30\<rparr> 31] \<and>
   endParameters (fst (propagate_to line_impl_at standard_abort_conditions 0 0 31
                         (line_options 5 10 200 never_stop))) = Some 30"
proof -
  have quiet: "\<not> initial_check_fired
       (snd (propagate_to line_impl_at standard_abort_conditions 0 0 31
               (line_options 5 10 200 never_stop)))"
    by (simp add: line_impl_at_def line_simps)
  have final: "cache (snd (propagate_' line_impl_at standard_abort_conditions
                 (line_options 5 10 200 never_stop)
                 [surface_reached 31 (direction (line_options 5 10 200 never_stop))
                    (target_tolerance (line_options 5 10 200 never_stop)),
                  path_limit_reached
                    (\<bar>max_path_length (line_options 5 10 200 never_stop)\<bar> *
                     direction_value (direction (line_options 5 10 200 never_stop)))
                    (target_tolerance (line_options 5 10 200 never_stop))]
                 (start_run_to line_impl_at 0 0 (line_options 5 10 200 never_stop)))) =
               \<lparr>step_size = 10, kinematics = 30\<rparr>"
    by (simp add: line_impl_at_def line_simps)
  have conv: "convert_to line_impl_at \<lparr>step_size = 10, kinematics = 30\<rparr> 31 = 30"
    by (simp add: line_impl_at_def line_impl_def)
  from targeted_internal_aborters_and_conversion
         [of line_impl_at standard_abort_conditions 0 0 31 "line_options 5 10 200 never_stop",
          THEN conjunct2, rule_format, OF quiet] quiet
  show ?thesis
    by (simp only: final conv simp_thms)
qed


text \<open>
  C10: when the check of the start state fires, neither overload of \<open>propagate\<close> calls
  \<open>step\<close> or anything else of the collaborators, and the result returned still has
  \<open>steps == 0\<close>, \<open>pathLength == 0\<close> and no final parameters.
\<close>

theorem failed_start_leaves_result_untouched:
  fixes impl :: "('t, 'r::{zero,one,plus,uminus,times,abs}, 'k, 's, 'p) Impl" and e :: 'e
  shows "(initial_check_fired (snd (propagate impl cond e start options)) \<longrightarrow>
            advances (snd (propagate impl cond e start options)) = [] \<and>
            length (snd (propagate impl cond e start options)) = 1 \<and>
            steps (fst (propagate impl cond e start options)) = 0 \<and>
            pathLength (fst (propagate impl cond e start options)) = 0 \<and>
            endParameters (fst (propagate impl cond e start options)) = None) \<and>
         (initial_check_fired (snd (propagate_to impl cond e start target options)) \<longrightarrow>
            advances (snd (propagate_to impl cond e start target options)) = [] \<and>
            length (snd (propagate_to impl cond e start target options)) = 1 \<and>
            steps (fst (propagate_to impl cond e start target options)) = 0 \<and>
            pathLength (fst (propagate_to impl cond e start target options)) = 0 \<and>
            endParameters (fst (propagate_to impl cond e start target options)) = None)"
proof (intro conjI impI)
  assume fired: "initial_check_fired (snd (propagate impl cond e start options))"
  obtain s st where run: "propagate_' impl cond options
      [path_limit_reached
         (\<bar>max_path_length options\<bar> * direction_value (direction options))
         (target_tolerance options)]
      (start_run impl e start options) = (s, st)"
    by (rule prod.exhaust)
  note out = propagate_readout [OF run]
  have s: "s = FAILURE"
    using fired propagate_'_fresh(5) [OF run] out(5) by auto
  note st = propagate_'_fresh(7) [OF run s]
  show "advances (snd (propagate impl cond e start options)) = []"
    using out(5) s st by simp
  show "length (snd (propagate impl cond e start options)) = 1"
    using out(5) s st by simp
  show "steps (fst (propagate impl cond e start options)) = 0"
    using out(1) st by (simp add: Result_init_def)
  show "pathLength (fst (propagate impl cond e start options)) = 0"
    using out(2) st by (simp add: Result_init_def)
  show "endParameters (fst (propagate impl cond e start options)) = None"
    using out(4) s by simp
next
  assume fired: "initial_check_fired (snd (propagate_to impl cond e start target options))"
  obtain s st where run: "propagate_' impl cond options
      [surface_reached target (direction options) (target_tolerance options),
       path_limit_reached
         (\<bar>max_path_length options\<bar> * direction_value (direction options))
         (target_tolerance options)]
      (start_run_to impl e start options) = (s, st)"
    by (rule prod.exhaust)
  note out = propagate_to_readout [OF run]
  have s: "s = FAILURE"
    using fired propagate_'_fresh(5) [OF run] out(5) by auto
  note st = propagate_'_fresh(7) [OF run s]
  show "advances (snd (propagate_to impl cond e start target options)) = []"
    using out(5) s st by simp
  show "length (snd (propagate_to impl cond e start target options)) = 1"
    using out(5) s st by simp
  show "steps (fst (propagate_to impl cond e start target options)) = 0"
    using out(1) st by (simp add: Result_init_def)
  show "pathLength (fst (propagate_to impl cond e start target options)) = 0"
    using out(2) st by (simp add: Result_init_def)
  show "endParameters (fst (propagate_to impl cond e start target options)) = None"
    using out(4) s by simp
qed

text \<open>
  The line stepper with a path limit of 0, and with a start on the target surface: the
  check of the start state fires and is the only call.
\<close>

theorem failed_start_leaves_result_untouched_witness:
  "initial_check_fired
     (snd (propagate line_impl standard_abort_conditions 0 0
             (line_options 3 10 0 never_stop))) \<and>
   advances (snd (propagate line_impl standard_abort_conditions 0 0
                    (line_options 3 10 0 never_stop))) = [] \<and>
   length (snd (propagate line_impl standard_abort_conditions 0 0
                  (line_options 3 10 0 never_stop))) = 1 \<and>
   steps (fst (propagate line_impl standard_abort_conditions 0 0
                 (line_options 3 10 0 never_stop))) = 0 \<and>
   pathLength (fst (propagate line_impl standard_abort_conditions 0 0
                      (line_options 3 10 0 never_stop))) = 0 \<and>
   endParameters (fst (propagate line_impl standard_abort_conditions 0 0
                         (line_options 3 10 0 never_stop))) = None \<and>
   initial_check_fired
     (snd (propagate_to line_impl standard_abort_conditions 0 0 0
             (line_options 5 10 200 never_stop))) \<and>
   advances (snd (propagate_to line_impl standard_abort_conditions 0 0 0
                    (line_options 5 10 200 never_stop))) = [] \<and>
   length (snd (propagate_to line_impl standard_abort_conditions 0 0 0
                  (line_options 5 10 200 never_stop))) = 1 \<and>
   steps (fst (propagate_to line_impl standard_abort_conditions 0 0 0
                 (line_options 5 10 200 never_stop))) = 0 \<and>
   pathLength (fst (propagate_to line_impl standard_abort_conditions 0 0 0
                      (line_options 5 10 200 never_stop))) = 0 \<and>
   endParameters (fst (propagate_to line_impl standard_abort_conditions 0 0 0
                         (line_options 5 10 200 never_stop))) = None"
proof -
  have fired: "initial_check_fired
     (snd (propagate line_impl standard_abort_conditions 0 0
             (line_options 3 10 0 never_stop)))"
    by (simp add: line_simps)
  have fired_to: "initial_check_fired
     (snd (propagate_to line_impl standard_abort_conditions 0 0 0
             (line_options 5 10 200 never_stop)))"
    by (simp add: line_simps)
  from failed_start_leaves_result_untouched
         [of line_impl standard_abort_conditions 0 0 "line_options 3 10 0 never_stop",
          THEN conjunct1, rule_format, OF fired]
       failed_start_leaves_result_untouched
         [of line_impl standard_abort_conditions 0 0 "line_options 5 10 200 never_stop" 0,
          THEN conjunct2, rule_format, OF fired_to]
       fired fired_to
  show ?thesis
    by simp
qed

end
